theory Spec2Isabelle
  imports Main "HOL-Library.Word" "HOL-Library.Multiset"
begin

section \<open>Python values\<close>

text \<open>
  The values the agent handles are the ones \<^verbatim>\<open>response.json()\<close> decodes and the
  ones the code builds from them: \<^verbatim>\<open>None\<close>, booleans, integers, floats, strings,
  lists and dictionaries. A float is carried as its IEEE-754 bit pattern (the code
  never computes with one). \<open>JObj\<close> is a decoded dictionary in association-list
  form: a key's value is its first binding (\<open>map_of\<close>).
\<close>

datatype json =
    JNull
  | JBool bool
  | JInt int
  | JFloat "64 word"
  | JStr string
  | JArr "json list"
  | JObj "(string \<times> json) list"

text \<open>
  The exception classes that occur. All of them are subclasses of Python's
  \<^verbatim>\<open>Exception\<close>; \<^verbatim>\<open>requests.exceptions.HTTPError\<close> is a subclass of
  \<^verbatim>\<open>requests.exceptions.RequestException\<close>. An exception is its class and the
  text \<^verbatim>\<open>str()\<close> gives for it.
\<close>

datatype exn_class =
    Exception
  | RequestException
  | HTTPError
  | ValueError
  | TypeError
  | AttributeError
  | KeyError

datatype exn = Exn exn_class string

fun issubclass :: "exn_class \<Rightarrow> exn_class \<Rightarrow> bool" where
  "issubclass c Exception = True"
| "issubclass c RequestException = (c = RequestException \<or> c = HTTPError)"
| "issubclass c c' = (c = c')"

fun isinstance :: "exn \<Rightarrow> exn_class \<Rightarrow> bool" where
  "isinstance (Exn c m) c' = issubclass c c'"

fun str_exn :: "exn \<Rightarrow> string" where
  "str_exn (Exn c m) = m"

definition nl :: string where
  "nl = [CHR 0x0A]"

text \<open>A text between single quotes.\<close>

definition quoted :: "string \<Rightarrow> string" where
  "quoted s = [CHR 0x27] @ s @ [CHR 0x27]"

fun type_name :: "json \<Rightarrow> string" where
  "type_name JNull = ''NoneType''"
| "type_name (JBool b) = ''bool''"
| "type_name (JInt n) = ''int''"
| "type_name (JFloat f) = ''float''"
| "type_name (JStr s) = ''str''"
| "type_name (JArr xs) = ''list''"
| "type_name (JObj kvs) = ''dict''"

text \<open>\<^verbatim>\<open>sub in s\<close> on two strings: \<open>sub\<close> occurs in \<open>s\<close> as a contiguous run.\<close>

fun starts_with :: "string \<Rightarrow> string \<Rightarrow> bool" where
  "starts_with [] s = True"
| "starts_with (c # cs) [] = False"
| "starts_with (c # cs) (d # ds) = (c = d \<and> starts_with cs ds)"

fun str_contains :: "string \<Rightarrow> string \<Rightarrow> bool" where
  "str_contains sub [] = (sub = [])"
| "str_contains sub (c # cs) = (starts_with sub (c # cs) \<or> str_contains sub cs)"

text \<open>
  The operators the code applies to a decoded body, with the exceptions the
  interpreter raises when the operand has another type (message texts as CPython 3.12
  prints them; nothing below depends on the texts).
  \<^item> \<open>py_contains v k\<close> is \<^verbatim>\<open>k in v\<close> for a string \<open>k\<close>: key membership on a
    dictionary, element membership on a list, substring test on a string.
  \<^item> \<open>py_getitem v k\<close> is \<^verbatim>\<open>v[k]\<close> for a string \<open>k\<close>.
  \<^item> \<open>py_iter v\<close> is the sequence a \<^verbatim>\<open>for\<close> loop over \<open>v\<close> runs through: the
    elements of a list, the keys of a dictionary, the characters of a string.
  \<^item> \<open>py_get v k d\<close> is \<^verbatim>\<open>v.get(k, d)\<close>, a method only dictionaries have.
\<close>

fun py_contains :: "json \<Rightarrow> string \<Rightarrow> exn + bool" where
  "py_contains (JObj kvs) k = Inr (k \<in> set (map fst kvs))"
| "py_contains (JArr xs) k = Inr (JStr k \<in> set xs)"
| "py_contains (JStr s) k = Inr (str_contains k s)"
| "py_contains v k =
     Inl (Exn TypeError (''argument of type '' @ quoted (type_name v) @ '' is not iterable''))"

fun py_getitem :: "json \<Rightarrow> string \<Rightarrow> exn + json" where
  "py_getitem (JObj kvs) k =
     (case map_of kvs k of
        None \<Rightarrow> Inl (Exn KeyError (quoted k))
      | Some v \<Rightarrow> Inr v)"
| "py_getitem (JArr xs) k =
     Inl (Exn TypeError ''list indices must be integers or slices, not str'')"
| "py_getitem (JStr s) k =
     Inl (Exn TypeError (''string indices must be integers, not '' @ quoted ''str''))"
| "py_getitem v k =
     Inl (Exn TypeError (quoted (type_name v) @ '' object is not subscriptable''))"

fun py_iter :: "json \<Rightarrow> exn + json list" where
  "py_iter (JArr xs) = Inr xs"
| "py_iter (JObj kvs) = Inr (map JStr (remdups (map fst kvs)))"
| "py_iter (JStr s) = Inr (map (\<lambda>c. JStr [c]) s)"
| "py_iter v =
     Inl (Exn TypeError (quoted (type_name v) @ '' object is not iterable''))"

fun py_get :: "json \<Rightarrow> string \<Rightarrow> json \<Rightarrow> exn + json" where
  "py_get (JObj kvs) k d = Inr (case map_of kvs k of None \<Rightarrow> d | Some v \<Rightarrow> v)"
| "py_get v k d =
     Inl (Exn AttributeError
       (quoted (type_name v) @ '' object has no attribute '' @ quoted ''get''))"

text \<open>\<^verbatim>\<open>sep.join(xs)\<close>.\<close>

fun join :: "string \<Rightarrow> string list \<Rightarrow> string" where
  "join sep [] = []"
| "join sep [x] = x"
| "join sep (x # y # ys) = x @ sep @ join sep (y # ys)"

text \<open>The decimal numeral \<^verbatim>\<open>str(n)\<close> of a status code.\<close>

definition digit :: "nat \<Rightarrow> char" where
  "digit d = char_of (48 + d)"

function str_nat :: "nat \<Rightarrow> string" where
  "str_nat n = (if n < 10 then [digit n] else str_nat (n div 10) @ [digit (n mod 10)])"
  by pat_completeness auto
termination
  by (relation "measure (\<lambda>n. n)") auto

section \<open>The HTTP client\<close>

text \<open>
  \<^verbatim>\<open>requests\<close> is an external library; what the agent sees of it is modelled here.
  A request is the URL, the headers and the query parameters handed to
  \<^verbatim>\<open>requests.get\<close>. A response has a status code, a reason phrase and the URL that
  was fetched; \<open>json_body\<close> is what \<^verbatim>\<open>response.json()\<close> does, either raising (the
  body is not JSON) or returning the decoded value.
\<close>

record http_request =
  req_url :: string
  req_headers :: "(string \<times> string) list"
  req_params :: "(string \<times> json) list"

record response =
  status_code :: nat
  reason :: string
  url :: string
  json_body :: "exn + json"

text \<open>
  \<^verbatim>\<open>Response.raise_for_status()\<close>: an \<^verbatim>\<open>HTTPError\<close> for a 4xx or 5xx status,
  nothing otherwise.
\<close>

definition raise_for_status :: "response \<Rightarrow> exn + unit" where
  "raise_for_status r =
     (if 400 \<le> status_code r \<and> status_code r < 500 then
        Inl (Exn HTTPError
          (str_nat (status_code r) @ '' Client Error: '' @ reason r @ '' for url: '' @ url r))
      else if 500 \<le> status_code r \<and> status_code r < 600 then
        Inl (Exn HTTPError
          (str_nat (status_code r) @ '' Server Error: '' @ reason r @ '' for url: '' @ url r))
      else Inr ())"

section \<open>The agent and its environment\<close>

text \<open>The fields \<^verbatim>\<open>__init__\<close> sets on the agent.\<close>

record agent =
  name :: string
  location :: string
  api_key :: string
  endpoint :: string

definition init :: "string \<Rightarrow> string \<Rightarrow> string \<Rightarrow> agent" where
  "init name_arg api_key_arg endpoint_arg =
     \<lparr>name = name_arg, location = ''us'', api_key = api_key_arg, endpoint = endpoint_arg\<rparr>"

text \<open>
  What a call cannot decide for itself comes from the runtime:
  \<^item> \<open>http_get i req\<close>: what \<^verbatim>\<open>requests.get\<close> does for the \<open>i\<close>-th submitted query
    (counted from 0) when it sends \<open>req\<close>: it raises, or a response arrives. Indexing
    by the submission lets two equal queries receive different replies.
  \<^item> \<open>completion\<close>: the order in which the submitted calls complete, as a list of
    choices read by \<open>as_completed\<close> below.
  \<^item> \<open>py_str\<close>: the text Python's \<^verbatim>\<open>str()\<close> gives for a value that is not a string
    (numbers, \<^verbatim>\<open>None\<close>, lists, dictionaries).
  \<^item> \<open>print_at site\<close>: what the \<^verbatim>\<open>print\<close> call at \<open>site\<close> does: \<open>None\<close> when it
    returns, \<open>Some exc\<close> when it raises \<open>exc\<close> (standard output closed, or a text
    it cannot encode). The text written is not modelled.
\<close>

text \<open>
  The \<^verbatim>\<open>print\<close> calls of the two methods: line 161 and line 183 of
  \<^verbatim>\<open>execute_tool\<close>, line 99 in the \<^verbatim>\<open>bing_search\<close> call of the \<open>i\<close>-th submitted
  query, and line 176 in the handler for the future of the \<open>i\<close>-th submitted query.
\<close>

datatype print_site =
    Searching
  | No_web_pages nat
  | Exception_occurred nat
  | Debug

record runtime =
  http_get :: "nat \<Rightarrow> http_request \<Rightarrow> exn + response"
  completion :: "nat list"
  py_str :: "json \<Rightarrow> string"
  print_at :: "print_site \<Rightarrow> exn option"

text \<open>
  The state a call can touch: the agent object and the log of the requests handed to
  \<^verbatim>\<open>requests.get\<close> so far.
\<close>

record world =
  self :: agent
  calls :: "http_request list"

text \<open>A placeholder \<^verbatim>\<open>{x}\<close> of an f-string: a string as it is, any other value through \<^verbatim>\<open>str()\<close>.\<close>

fun fstr :: "runtime \<Rightarrow> json \<Rightarrow> string" where
  "fstr rt (JStr s) = s"
| "fstr rt v = py_str rt v"

section \<open>\<^verbatim>\<open>get_guided_json\<close>\<close>

definition get_guided_json :: "agent \<Rightarrow> 'st option \<Rightarrow> json" where
  "get_guided_json slf state =
     JObj [
       (''type'', JStr ''object''),
       (''properties'', JObj [
          (''queries'', JObj [
             (''type'', JStr ''array''),
             (''items'', JObj [
                (''type'', JStr ''string''),
                (''description'', JStr ''A search query string.'')]),
             (''description'', JStr ''A list of search query strings.'')]),
          (''location'', JObj [
             (''type'', JStr ''string''),
             (''description'', JStr
                (''The geographic location for the search results. '' @
                 ''Available locations: 'us', 'gb', 'nl', 'ca'.''))])]),
       (''required'', JArr [JStr ''queries'', JStr ''location'']),
       (''additionalProperties'', JBool False)]"

section \<open>\<^verbatim>\<open>bing_search\<close>\<close>

text \<open>
  The dictionaries the code builds itself have a fixed set of possible keys, so they
  are records of optional fields: \<open>None\<close> is an absent key. A hit is the dictionary
  appended in \<^verbatim>\<open>bing_search\<close>; the result of \<^verbatim>\<open>bing_search\<close> has the key
  \<^verbatim>\<open>'organic_results'\<close> or the key \<^verbatim>\<open>'error'\<close>.
\<close>

record sitelink =
  sl_title :: "json option"
  sl_link :: "json option"

record hit =
  query :: "json option"
  title :: "json option"
  link :: "json option"
  sitelinks :: "sitelink list option"

record search_results =
  organic_results :: "hit list option"
  error :: "string option"

definition build_request :: "agent \<Rightarrow> string \<Rightarrow> string \<Rightarrow> http_request" where
  "build_request slf query_arg location_arg =
     \<lparr>req_url = endpoint slf,
      req_headers = [(''Ocp-Apim-Subscription-Key'', api_key slf)],
      req_params = [(''q'', JStr query_arg), (''mkt'', JStr location_arg), (''count'', JInt 10)]\<rparr>"

text \<open>The \<^verbatim>\<open>for item in results['webPages']['value']\<close> loop, appending to \<open>simplified_results\<close>.\<close>

fun simplify_items :: "string \<Rightarrow> json list \<Rightarrow> hit list \<Rightarrow> exn + hit list" where
  "simplify_items query_arg [] simplified_results = Inr simplified_results"
| "simplify_items query_arg (item # items) simplified_results =
     (case py_get item ''name'' (JStr ''No Title'') of
        Inl ex \<Rightarrow> Inl ex
      | Inr title_v \<Rightarrow>
          (case py_get item ''url'' (JStr ''#'') of
             Inl ex \<Rightarrow> Inl ex
           | Inr link_v \<Rightarrow>
               simplify_items query_arg items
                 (simplified_results @
                    [\<lparr>query = Some (JStr query_arg), title = Some title_v,
                      link = Some link_v, sitelinks = Some []\<rparr>])))"

text \<open>
  The condition \<^verbatim>\<open>'webPages' in results and 'value' in results['webPages']\<close>; the
  right operand is evaluated only when the left one is true.
\<close>

definition has_web_pages :: "json \<Rightarrow> exn + bool" where
  "has_web_pages results =
     (case py_contains results ''webPages'' of
        Inl ex \<Rightarrow> Inl ex
      | Inr False \<Rightarrow> Inr False
      | Inr True \<Rightarrow>
          (case py_getitem results ''webPages'' of
             Inl ex \<Rightarrow> Inl ex
           | Inr web_pages \<Rightarrow> py_contains web_pages ''value''))"

text \<open>
  Lines 82 to 100: the part of the \<^verbatim>\<open>try\<close> block after the body has been decoded,
  in the call for the \<open>i\<close>-th submitted query. The \<^verbatim>\<open>else\<close> branch prints (line 99)
  before it returns.
\<close>

definition simplify :: "runtime \<Rightarrow> nat \<Rightarrow> string \<Rightarrow> json \<Rightarrow> exn + search_results" where
  "simplify rt i query_arg results =
     (case has_web_pages results of
        Inl ex \<Rightarrow> Inl ex
      | Inr False \<Rightarrow>
          (case print_at rt (No_web_pages i) of
             Some ex \<Rightarrow> Inl ex
           | None \<Rightarrow> Inr \<lparr>organic_results = Some [], error = None\<rparr>)
      | Inr True \<Rightarrow>
          (case py_getitem results ''webPages'' of
             Inl ex \<Rightarrow> Inl ex
           | Inr web_pages \<Rightarrow>
               (case py_getitem web_pages ''value'' of
                  Inl ex \<Rightarrow> Inl ex
                | Inr items_v \<Rightarrow>
                    (case py_iter items_v of
                       Inl ex \<Rightarrow> Inl ex
                     | Inr items \<Rightarrow>
                         (case simplify_items query_arg items [] of
                            Inl ex \<Rightarrow> Inl ex
                          | Inr simplified_results \<Rightarrow>
                              Inr \<lparr>organic_results = Some simplified_results, error = None\<rparr>)))))"

text \<open>Lines 80 to 100: the whole \<^verbatim>\<open>try\<close> block, given what \<^verbatim>\<open>requests.get\<close> did.\<close>

definition try_block ::
  "runtime \<Rightarrow> nat \<Rightarrow> string \<Rightarrow> exn + response \<Rightarrow> exn + search_results" where
  "try_block rt i query_arg got =
     (case got of
        Inl ex \<Rightarrow> Inl ex
      | Inr resp \<Rightarrow>
          (case raise_for_status resp of
             Inl ex \<Rightarrow> Inl ex
           | Inr u \<Rightarrow>
               (case json_body resp of
                  Inl ex \<Rightarrow> Inl ex
                | Inr results \<Rightarrow> simplify rt i query_arg results)))"

text \<open>
  Lines 102 to 107: the \<^verbatim>\<open>except\<close> clauses, tried in order. An exception that no
  clause matches leaves the function.
\<close>

definition except_clauses :: "exn \<Rightarrow> exn + search_results" where
  "except_clauses ex =
     (if isinstance ex HTTPError then
        Inr \<lparr>organic_results = None, error = Some (''HTTP error occurred: '' @ str_exn ex)\<rparr>
      else if isinstance ex RequestException then
        Inr \<lparr>organic_results = None, error = Some (''Request error occurred: '' @ str_exn ex)\<rparr>
      else if isinstance ex Exception then
        Inr \<lparr>organic_results = None, error = Some (str_exn ex)\<rparr>
      else Inl ex)"

text \<open>
  \<open>bing_search rt i slf query location w\<close>: the call for the \<open>i\<close>-th submitted query.
  It returns what the call returns or raises, and the world with the request logged.
\<close>

definition bing_search ::
  "runtime \<Rightarrow> nat \<Rightarrow> string \<Rightarrow> string \<Rightarrow> world \<Rightarrow> (exn + search_results) \<times> world" where
  "bing_search rt i query_arg location_arg w =
     (let req = build_request (self w) query_arg location_arg;
          w' = w\<lparr>calls := calls w @ [req]\<rparr>
      in (case try_block rt i query_arg (http_get rt i req) of
            Inl ex \<Rightarrow> (except_clauses ex, w')
          | Inr res \<Rightarrow> (Inr res, w')))"

section \<open>\<^verbatim>\<open>format_search_results\<close>\<close>

text \<open>\<^verbatim>\<open>d.get(key, default)\<close> on a dictionary modelled as a record of optional fields.\<close>

definition get_or :: "'a option \<Rightarrow> 'a \<Rightarrow> 'a" where
  "get_or field default_value = (case field of None \<Rightarrow> default_value | Some v \<Rightarrow> v)"

text \<open>Lines 135 to 137: the line of one sitelink.\<close>

definition sitelink_string :: "runtime \<Rightarrow> sitelink \<Rightarrow> string" where
  "sitelink_string rt sl =
     (let sitelink_title = get_or (sl_title sl) (JStr ''No Title'');
          sitelink_link = get_or (sl_link sl) (JStr ''No Link'')
      in ''    - '' @ fstr rt sitelink_title @ '': '' @ fstr rt sitelink_link)"

text \<open>Lines 123 to 144: the body of the loop over the hits; a non-empty list is truthy.\<close>

definition result_block :: "runtime \<Rightarrow> hit \<Rightarrow> string" where
  "result_block rt result =
     (let query_v = get_or (query result) (JStr ''No Query'');
          title_v = get_or (title result) (JStr ''No Title'');
          link_v = get_or (link result) (JStr ''No Link'');
          result_string =
            ''Query: '' @ fstr rt query_v @ nl @ ''Title: '' @ fstr rt title_v @ nl @
            ''Link: '' @ fstr rt link_v;
          sitelinks_v = get_or (sitelinks result) [];
          result_string' =
            (if sitelinks_v \<noteq> [] then
               result_string @ (nl @ ''Sitelinks:'' @ nl @
                 join nl (map (sitelink_string rt) sitelinks_v))
             else result_string @ nl @ ''Sitelinks: None'')
      in result_string' @ nl @ replicate 40 CHR ''-'')"

definition format_search_results :: "runtime \<Rightarrow> search_results \<Rightarrow> string" where
  "format_search_results rt search_results_arg =
     (let organic = get_or (organic_results search_results_arg) [];
          formatted_strings = map (result_block rt) organic
      in join nl formatted_strings)"

section \<open>\<^verbatim>\<open>execute_tool\<close>\<close>

text \<open>
  The request dictionary: the keys \<^verbatim>\<open>"queries"\<close> and \<^verbatim>\<open>"location"\<close>, each possibly
  absent, with values of the types the schema of \<open>get_guided_json\<close> declares.
\<close>

record tool_response =
  tr_queries :: "string list option"
  tr_location :: "string option"

text \<open>
  A future, once done: \<^verbatim>\<open>future.result()\<close> returns what the submitted call returned
  or raises what it raised. \<open>fut_index\<close> is the position of its submission; two
  submissions are never the same future.
\<close>

record future =
  fut_index :: nat
  fut_result :: "exn + search_results"

text \<open>
  Line 167: one \<^verbatim>\<open>executor.submit\<close> per query, in the order of the list, building
  the dictionary \<open>future_to_query\<close> (here its list of entries). The pool runs the
  submitted calls on up to five threads; each of them is one \<open>bing_search\<close>, and the
  log lists their requests in the order of submission.
\<close>

fun submit_all ::
  "runtime \<Rightarrow> string \<Rightarrow> nat \<Rightarrow> string list \<Rightarrow> world \<Rightarrow> (future \<times> string) list \<times> world" where
  "submit_all rt location_arg i [] w = ([], w)"
| "submit_all rt location_arg i (query_arg # queries) w =
     (let (res, w1) = bing_search rt i query_arg location_arg w;
          (future_to_query, w2) = submit_all rt location_arg (Suc i) queries w1
      in ((\<lparr>fut_index = i, fut_result = res\<rparr>, query_arg) # future_to_query, w2))"

text \<open>
  \<^verbatim>\<open>as_completed\<close> yields every future once, in the order of completion, which the
  code does not control. The choices decide it: with \<open>n\<close> futures still pending
  and next choice \<open>c\<close>, the pending future at position \<open>c mod n\<close> completes next
  (the first pending one when the choices are used up).
\<close>

function as_completed :: "nat list \<Rightarrow> 'a list \<Rightarrow> 'a list" where
  "as_completed choices pending =
     (if pending = [] then []
      else
        (let k = (case choices of [] \<Rightarrow> 0 | c # cs \<Rightarrow> c mod length pending)
         in pending ! k # as_completed (tl choices) (take k pending @ drop (Suc k) pending)))"
  by pat_completeness auto
termination
proof (relation "measure (\<lambda>(choices, pending). length pending)")
  show "wf (measure (\<lambda>(choices, pending). length pending))"
    by simp
next
  fix choices :: "nat list" and pending :: "'a list" and k
  assume ne: "pending \<noteq> []"
    and k: "k = (case choices of [] \<Rightarrow> 0 | c # cs \<Rightarrow> c mod length pending)"
  have "k < length pending"
    using ne k by (cases choices) simp_all
  then show "((tl choices, take k pending @ drop (Suc k) pending), (choices, pending))
      \<in> measure (\<lambda>(choices, pending). length pending)"
    by simp
qed

text \<open>
  Lines 171 to 178: the body of the loop over the completed futures, giving the
  string to append for one future. The \<^verbatim>\<open>except Exception\<close> clause takes what
  \<^verbatim>\<open>future.result()\<close> raises, prints (line 176) and builds the error message;
  anything else, and what that \<^verbatim>\<open>print\<close> raises, would leave the loop.
\<close>

definition render_completed :: "runtime \<Rightarrow> future \<Rightarrow> string \<Rightarrow> exn + string" where
  "render_completed rt fut query_arg =
     (case fut_result fut of
        Inr res \<Rightarrow> Inr (format_search_results rt res)
      | Inl exc \<Rightarrow>
          (if isinstance exc Exception then
             (case print_at rt (Exception_occurred (fut_index fut)) of
                Some ex \<Rightarrow> Inl ex
              | None \<Rightarrow> Inr (''Error for query '' @ quoted query_arg @ '': '' @ str_exn exc))
           else Inl exc))"

text \<open>Lines 169 to 178: the loop, appending to \<open>search_results_list\<close>.\<close>

fun collect :: "runtime \<Rightarrow> (future \<times> string) list \<Rightarrow> string list \<Rightarrow> exn + string list" where
  "collect rt [] search_results_list = Inr search_results_list"
| "collect rt ((fut, query_arg) # rest) search_results_list =
     (case render_completed rt fut query_arg of
        Inl exc \<Rightarrow> Inl exc
      | Inr formatted \<Rightarrow> collect rt rest (search_results_list @ [formatted]))"

text \<open>
  \<open>execute_tool rt tool_response w\<close> returns the combined string or raises, and the
  world after the call. \<^verbatim>\<open>not queries\<close> holds for an absent key and for the empty
  list. The \<^verbatim>\<open>print\<close> of line 161 comes before the first submission and the one of
  line 183 after the loop; neither is inside a \<^verbatim>\<open>try\<close>, so what they raise reaches
  the caller. The argument \<^verbatim>\<open>state\<close>, which the body never reads, is left out.
\<close>

definition missing_queries :: exn where
  "missing_queries = Exn ValueError ''Search queries are missing from the tool response''"

definition execute_tool :: "runtime \<Rightarrow> tool_response \<Rightarrow> world \<Rightarrow> (exn + string) \<times> world" where
  "execute_tool rt tool_response_arg w =
     (let location_v = get_or (tr_location tool_response_arg) (location (self w))
      in (case tr_queries tool_response_arg of
            None \<Rightarrow> (Inl missing_queries, w)
          | Some queries \<Rightarrow>
              (if queries = [] then (Inl missing_queries, w)
               else
                 (case print_at rt Searching of
                    Some exc \<Rightarrow> (Inl exc, w)
                  | None \<Rightarrow>
                      (let (future_to_query, w') = submit_all rt location_v 0 queries w
                       in (case collect rt (as_completed (completion rt) future_to_query) [] of
                             Inl exc \<Rightarrow> (Inl exc, w')
                           | Inr search_results_list \<Rightarrow>
                               (let combined_results = join nl search_results_list
                                in (case print_at rt Debug of
                                      Some exc \<Rightarrow> (Inl exc, w')
                                    | None \<Rightarrow> (Inr combined_results, w')))))))))"

text \<open>
  The string the loop appends for the \<open>i\<close>-th submitted query: the future of its
  \<open>bing_search\<close> call, put through the loop body.
\<close>

definition query_entry :: "runtime \<Rightarrow> string \<Rightarrow> world \<Rightarrow> nat \<Rightarrow> string \<Rightarrow> exn + string" where
  "query_entry rt location_arg w i query_arg =
     render_completed rt
       \<lparr>fut_index = i, fut_result = fst (bing_search rt i query_arg location_arg w)\<rparr> query_arg"

section \<open>Example inputs\<close>

text \<open>
  Concrete requests, replies and runtimes on which the theorems below are evaluated.
  \<open>stub_runtime replies order\<close> answers the \<open>i\<close>-th submitted query with
  \<open>replies ! i\<close>, lets the calls complete as \<open>order\<close> chooses, and every
  \<^verbatim>\<open>print\<close> returns.
\<close>

definition example_url :: string where
  "example_url = ''https://api.bing.microsoft.com/v7.0/search''"

definition example_world :: world where
  "example_world = \<lparr>self = init ''TestBingAgent'' ''key'' example_url, calls = []\<rparr>"

definition ok_response :: "json \<Rightarrow> exn + response" where
  "ok_response body =
     Inr \<lparr>status_code = 200, reason = ''OK'', url = example_url, json_body = Inr body\<rparr>"

definition unauthorized :: "exn + response" where
  "unauthorized =
     Inr \<lparr>status_code = 401, reason = ''Unauthorized'', url = example_url,
          json_body = Inr (JObj [])\<rparr>"

definition one_hit_body :: json where
  "one_hit_body =
     JObj [(''webPages'', JObj [(''value'', JArr [JObj [(''name'', JStr ''A''), (''url'', JStr ''http://a'')]])])]"

definition stub_runtime :: "(exn + response) list \<Rightarrow> nat list \<Rightarrow> runtime" where
  "stub_runtime replies order =
     \<lparr>http_get = (\<lambda>i req. if i < length replies then replies ! i
                             else Inl (Exn RequestException ''connection refused'')),
      completion = order,
      py_str = (\<lambda>v. ''<'' @ type_name v @ ''>''),
      print_at = (\<lambda>site. None)\<rparr>"

text \<open>
  A runtime in which the \<^verbatim>\<open>print\<close> at one site fails as it does on a closed
  standard output, and every other \<^verbatim>\<open>print\<close> returns.
\<close>

definition closed_stdout :: exn where
  "closed_stdout = Exn ValueError ''I/O operation on closed file.''"

definition failing_print :: "print_site \<Rightarrow> runtime \<Rightarrow> runtime" where
  "failing_print site rt =
     rt\<lparr>print_at := (\<lambda>s. if s = site then Some closed_stdout else None)\<rparr>"


definition two_hit_body :: json where
  "two_hit_body =
     JObj [(''webPages'', JObj [(''value'', JArr [
        JObj [(''name'', JStr ''A''), (''url'', JStr ''http://a'')],
        JObj [(''name'', JStr ''B'')]])])]"


definition null_value_body :: json where
  "null_value_body = JObj [(''webPages'', JObj [(''value'', JNull)])]"

definition empty_value_body :: json where
  "empty_value_body = JObj [(''webPages'', JObj [(''value'', JObj [])])]"

definition sitelink_hit :: hit where
  "sitelink_hit =
     \<lparr>query = Some (JStr ''q''), title = Some (JStr ''t''), link = Some (JStr ''l''),
      sitelinks = Some [\<lparr>sl_title = Some (JStr ''a''), sl_link = Some (JStr ''b'')\<rparr>]\<rparr>"

section \<open>The shape of a decoded body\<close>

text \<open>
  \<open>lacks v k\<close>: the value \<open>v\<close> can be searched for \<open>k\<close> and does not contain it.
  It is an object without the key \<open>k\<close>, an array without the string \<open>k\<close> among
  its elements, or a string in which \<open>k\<close> does not occur.
\<close>

fun lacks :: "json \<Rightarrow> string \<Rightarrow> bool" where
  "lacks (JObj kvs) k = (map_of kvs k = None)"
| "lacks (JArr xs) k = (JStr k \<notin> set xs)"
| "lacks (JStr s) k = (\<not> str_contains k s)"
| "lacks v k = False"


section \<open>The rendering as a list of lines\<close>

text \<open>
  The lines of the block of one hit, following the description of the rendering:
  the lines Query, Title and Link; then \<^verbatim>\<open>Sitelinks: None\<close> for a hit without
  sitelinks, or the line \<^verbatim>\<open>Sitelinks:\<close> and one indented line per sitelink; then
  forty dashes.
\<close>

definition spec_block_lines :: "runtime \<Rightarrow> hit \<Rightarrow> string list" where
  "spec_block_lines rt h =
     [''Query: '' @ fstr rt (get_or (query h) (JStr ''No Query'')),
      ''Title: '' @ fstr rt (get_or (title h) (JStr ''No Title'')),
      ''Link: '' @ fstr rt (get_or (link h) (JStr ''No Link''))] @
     (if get_or (sitelinks h) [] = [] then [''Sitelinks: None'']
      else ''Sitelinks:'' #
        map (\<lambda>sl. ''    - '' @ fstr rt (get_or (sl_title sl) (JStr ''No Title'')) @ '': '' @
                   fstr rt (get_or (sl_link sl) (JStr ''No Link'')))
          (get_or (sitelinks h) [])) @
     [replicate 40 CHR ''-'']"

section \<open>Auxiliary facts\<close>

declare as_completed.simps [simp del]

lemma isinstance_Exception: "isinstance ex Exception"
  by (cases ex) simp

lemma except_clauses_error:
  "\<exists>msg. except_clauses ex = Inr \<lparr>organic_results = None, error = Some msg\<rparr>"
  by (simp add: except_clauses_def isinstance_Exception)

lemma simplify_organic:
  "simplify rt i q results = Inr r \<Longrightarrow> \<exists>hits. r = \<lparr>organic_results = Some hits, error = None\<rparr>"
  by (auto simp: simplify_def split: sum.splits bool.splits option.splits)

lemma try_block_organic:
  "try_block rt i q got = Inr r \<Longrightarrow> \<exists>hits. r = \<lparr>organic_results = Some hits, error = None\<rparr>"
  by (auto simp: try_block_def split: sum.splits dest: simplify_organic)

lemma snd_bing_search:
  "snd (bing_search rt i q loc w) = w\<lparr>calls := calls w @ [build_request (self w) q loc]\<rparr>"
  by (simp add: bing_search_def Let_def split: sum.splits)

lemma fst_bing_search_cases:
  "(\<exists>hits. fst (bing_search rt i q loc w) = Inr \<lparr>organic_results = Some hits, error = None\<rparr>) \<or>
   (\<exists>msg. fst (bing_search rt i q loc w) = Inr \<lparr>organic_results = None, error = Some msg\<rparr>)"
proof (cases "try_block rt i q (http_get rt i (build_request (self w) q loc))")
  case (Inl ex)
  then show ?thesis
    using except_clauses_error [of ex] by (auto simp: bing_search_def Let_def)
next
  case (Inr r)
  then show ?thesis
    using try_block_organic [OF Inr] by (auto simp: bing_search_def Let_def)
qed

lemma fst_bing_search_self:
  "self w' = self w \<Longrightarrow> fst (bing_search rt i q loc w') = fst (bing_search rt i q loc w)"
  by (simp add: bing_search_def Let_def split: sum.splits)

lemma fst_bing_search_Inr: "\<exists>r. fst (bing_search rt i q loc w) = Inr r"
  using fst_bing_search_cases [of rt i q loc w] by blast

lemma query_entry_eq:
  "query_entry rt loc w i q =
     Inr (format_search_results rt (projr (fst (bing_search rt i q loc w))))"
proof -
  obtain r where "fst (bing_search rt i q loc w) = Inr r"
    using fst_bing_search_Inr by blast
  then show ?thesis
    by (simp add: query_entry_def render_completed_def)
qed

lemma query_entry_Inr: "\<exists>s. query_entry rt loc w i q = Inr s"
  by (simp add: query_entry_eq)

lemma collect_entries:
  "collect rt
     (map (\<lambda>j. (\<lparr>fut_index = j, fut_result = fst (bing_search rt j (qs ! j) loc w)\<rparr>, qs ! j)) js)
     acc =
   Inr (acc @ map (\<lambda>j. projr (query_entry rt loc w j (qs ! j))) js)"
proof (induction js arbitrary: acc)
  case Nil
  then show ?case by simp
next
  case (Cons j js)
  obtain s where s: "query_entry rt loc w j (qs ! j) = Inr s"
    using query_entry_Inr by blast
  then have "render_completed rt
      \<lparr>fut_index = j, fut_result = fst (bing_search rt j (qs ! j) loc w)\<rparr> (qs ! j) = Inr s"
    by (simp add: query_entry_def)
  then show ?case
    by (simp add: Cons.IH s)
qed

lemma as_completed_Nil: "as_completed cs [] = []"
  by (simp add: as_completed.simps)



lemma as_completed_map: "as_completed cs (map f xs) = map f (as_completed cs xs)"
proof (induction cs xs rule: as_completed.induct)
  case (1 choices pending)
  show ?case
  proof (cases "pending = []")
    case True
    then show ?thesis by (simp add: as_completed_Nil)
  next
    case False
    define k where "k = (case choices of [] \<Rightarrow> 0 | c # cs \<Rightarrow> c mod length pending)"
    have klt: "k < length pending"
      using False by (cases choices) (simp_all add: k_def)
    have k': "k = (case choices of [] \<Rightarrow> 0 | c # cs \<Rightarrow> c mod length (map f pending))"
      by (simp add: k_def cong: list.case_cong)
    have ih: "as_completed (tl choices) (map f (take k pending @ drop (Suc k) pending))
        = map f (as_completed (tl choices) (take k pending @ drop (Suc k) pending))"
      using "1.IH" [OF False k_def] .
    have l: "as_completed choices (map f pending) =
        map f pending ! k # as_completed (tl choices) (take k (map f pending) @ drop (Suc k) (map f pending))"
      using False by (subst as_completed.simps) (simp add: k' [symmetric] Let_def)
    have r: "as_completed choices pending =
        pending ! k # as_completed (tl choices) (take k pending @ drop (Suc k) pending)"
      using False by (subst as_completed.simps) (simp add: k_def Let_def)
    show ?thesis
      using ih klt by (simp add: l r take_map drop_map)
  qed
qed


lemma self_calls_update: "self (w\<lparr>calls := cs\<rparr>) = self w"
  by simp

lemma submit_all_eq:
  "submit_all rt loc i qs w =
     (map (\<lambda>(j, q). (\<lparr>fut_index = j, fut_result = fst (bing_search rt j q loc w)\<rparr>, q))
        (zip [i..<i + length qs] qs),
      w\<lparr>calls := calls w @ map (\<lambda>q. build_request (self w) q loc) qs\<rparr>)"
proof (induction qs arbitrary: i w)
  case Nil
  then show ?case by simp
next
  case (Cons q qs)
  define w1 where "w1 = w\<lparr>calls := calls w @ [build_request (self w) q loc]\<rparr>"
  have b: "bing_search rt i q loc w = (fst (bing_search rt i q loc w), w1)"
    using snd_bing_search [of rt i q loc w] by (simp add: w1_def prod_eq_iff)
  have s1: "self w1 = self w"
    by (simp add: w1_def)
  have same: "\<And>j q'. fst (bing_search rt j q' loc w1) = fst (bing_search rt j q' loc w)"
    using s1 by (rule fst_bing_search_self)
  have upt: "[i..<i + length (q # qs)] = i # [Suc i..<Suc i + length qs]"
    using upt_conv_Cons [of i "Suc i + length qs"] by simp
  have w2: "w1\<lparr>calls := calls w1 @ map (\<lambda>q. build_request (self w1) q loc) qs\<rparr> =
      w\<lparr>calls := calls w @ map (\<lambda>q. build_request (self w) q loc) (q # qs)\<rparr>"
    by (simp add: w1_def)
  have "submit_all rt loc i (q # qs) w =
      (let (res, w1') = (fst (bing_search rt i q loc w), w1);
           (future_to_query, w2') = submit_all rt loc (Suc i) qs w1'
       in ((\<lparr>fut_index = i, fut_result = res\<rparr>, q) # future_to_query, w2'))"
    using b by simp
  also have "\<dots> =
      ((\<lparr>fut_index = i, fut_result = fst (bing_search rt i q loc w)\<rparr>, q) #
         map (\<lambda>(j, q). (\<lparr>fut_index = j, fut_result = fst (bing_search rt j q loc w)\<rparr>, q))
           (zip [Suc i..<Suc i + length qs] qs),
       w\<lparr>calls := calls w @ map (\<lambda>q. build_request (self w) q loc) (q # qs)\<rparr>)"
    by (simp only: Cons.IH [of "Suc i" w1] same w2 Let_def prod.case)
  finally show ?case
    by (simp only: upt zip_Cons_Cons list.map prod.case)
qed

lemma execute_tool_nonempty:
  assumes q: "tr_queries tr = Some qs" and ne: "qs \<noteq> []"
  shows "execute_tool rt tr w =
    (case print_at rt Searching of
       Some exc \<Rightarrow> (Inl exc, w)
     | None \<Rightarrow>
         (case print_at rt Debug of
            Some exc \<Rightarrow> Inl exc
          | None \<Rightarrow>
              Inr (join nl
                (map (\<lambda>j. projr (query_entry rt (get_or (tr_location tr)
                                       (location (self w))) w j (qs ! j)))
                   (as_completed (completion rt) [0..<length qs]))),
          w\<lparr>calls := calls w @
             map (\<lambda>q. build_request (self w) q
                         (get_or (tr_location tr) (location (self w)))) qs\<rparr>))"
proof -
  define loc where "loc = get_or (tr_location tr) (location (self w))"
  define mk where
    "mk = (\<lambda>j. (\<lparr>fut_index = j, fut_result = fst (bing_search rt j (qs ! j) loc w)\<rparr>, qs ! j))"
  have z: "map (\<lambda>(j, q). (\<lparr>fut_index = j, fut_result = fst (bing_search rt j q loc w)\<rparr>, q))
        (zip [0..<0 + length qs] qs) = map mk [0..<length qs]"
    by (rule nth_equalityI) (simp_all add: mk_def)
  have sub: "submit_all rt loc 0 qs w =
      (map mk [0..<length qs],
       w\<lparr>calls := calls w @ map (\<lambda>q. build_request (self w) q loc) qs\<rparr>)"
    by (simp only: submit_all_eq z)
  have "collect rt (map mk (as_completed (completion rt) [0..<length qs])) [] =
      Inr ([] @ map (\<lambda>j. projr (query_entry rt loc w j (qs ! j)))
                  (as_completed (completion rt) [0..<length qs]))"
    unfolding mk_def by (rule collect_entries)
  then have col: "collect rt (as_completed (completion rt) (map mk [0..<length qs])) [] =
      Inr (map (\<lambda>j. projr (query_entry rt loc w j (qs ! j)))
             (as_completed (completion rt) [0..<length qs]))"
    by (simp add: as_completed_map)
  show ?thesis
    unfolding execute_tool_def loc_def [symmetric]
    by (simp add: q ne sub col Let_def split: option.splits)
qed

lemma execute_tool_missing:
  assumes "tr_queries tr = None \<or> tr_queries tr = Some []"
  shows "execute_tool rt tr w = (Inl missing_queries, w)"
proof (cases "tr_queries tr")
  case None
  then show ?thesis by (simp add: execute_tool_def)
next
  case (Some qs)
  with assms have "qs = []" by simp
  with Some show ?thesis by (simp add: execute_tool_def)
qed

lemma query_entry_calls:
  "query_entry rt loc (w\<lparr>calls := cs\<rparr>) j q = query_entry rt loc w j q"
  using fst_bing_search_self [of "w\<lparr>calls := cs\<rparr>" w rt j q loc]
  by (simp add: query_entry_def)

lemma fst_execute_tool_calls:
  "fst (execute_tool rt tr (w\<lparr>calls := cs\<rparr>)) = fst (execute_tool rt tr w)"
proof (cases "tr_queries tr = None \<or> tr_queries tr = Some []")
  case True
  then show ?thesis
    by (simp only: execute_tool_missing fst_conv)
next
  case False
  then obtain qs where q: "tr_queries tr = Some qs" and ne: "qs \<noteq> []"
    by (cases "tr_queries tr") auto
  have s: "self (w\<lparr>calls := cs\<rparr>) = self w"
    by simp
  show ?thesis
    by (simp only: execute_tool_nonempty [OF q ne] s query_entry_calls)
      (simp split: option.splits)
qed

lemma snd_execute_tool_frame:
  "\<exists>cs. snd (execute_tool rt tr w) = w\<lparr>calls := cs\<rparr>"
proof (cases "tr_queries tr = None \<or> tr_queries tr = Some []")
  case True
  have "w = w\<lparr>calls := calls w\<rparr>"
    by simp
  then have "snd (execute_tool rt tr w) = w\<lparr>calls := calls w\<rparr>"
    by (simp only: execute_tool_missing [OF True] snd_conv)
  then show ?thesis by blast
next
  case False
  then obtain qs where q: "tr_queries tr = Some qs" and ne: "qs \<noteq> []"
    by (cases "tr_queries tr") auto
  show ?thesis
  proof (cases "print_at rt Searching")
    case None
    then have "snd (execute_tool rt tr w) = w\<lparr>calls := calls w @
        map (\<lambda>q. build_request (self w) q (get_or (tr_location tr) (location (self w)))) qs\<rparr>"
      by (simp add: execute_tool_nonempty [OF q ne])
    then show ?thesis by blast
  next
    case (Some exc)
    have "w = w\<lparr>calls := calls w\<rparr>"
      by simp
    then have "snd (execute_tool rt tr w) = w\<lparr>calls := calls w\<rparr>"
      by (simp add: execute_tool_nonempty [OF q ne] Some)
    then show ?thesis by blast
  qed
qed



lemmas example_defs = example_world_def ok_response_def unauthorized_def one_hit_body_def
  stub_runtime_def example_url_def init_def
  failing_print_def closed_stdout_def

lemmas eval_defs = execute_tool_def bing_search_def try_block_def simplify_def has_web_pages_def
  raise_for_status_def except_clauses_def build_request_def format_search_results_def result_block_def
  sitelink_string_def render_completed_def get_or_def quoted_def nl_def Let_def as_completed.simps

lemma py_contains_obj: "py_contains (JObj kvs) k = Inr (map_of kvs k \<noteq> None)"
  by (simp add: map_of_eq_None_iff)

lemma py_contains_lacks: "lacks v k \<Longrightarrow> py_contains v k = Inr False"
  by (cases v) (simp_all add: map_of_eq_None_iff)

lemma has_web_pages_lacks:
  assumes "lacks results ''webPages'' \<or>
     (\<exists>kvs w_v. results = JObj kvs \<and> map_of kvs ''webPages'' = Some w_v \<and> lacks w_v ''value'')"
  shows "has_web_pages results = Inr False"
  using assms
proof
  assume "lacks results ''webPages''"
  then show ?thesis
    by (simp add: has_web_pages_def py_contains_lacks)
next
  assume "\<exists>kvs w_v. results = JObj kvs \<and> map_of kvs ''webPages'' = Some w_v \<and> lacks w_v ''value''"
  then obtain kvs w_v where r: "results = JObj kvs"
    and w: "map_of kvs ''webPages'' = Some w_v" and l: "lacks w_v ''value''"
    by blast
  show ?thesis
    by (simp add: has_web_pages_def r py_contains_obj w py_contains_lacks [OF l]
        del: py_contains.simps)
qed

lemma simplify_lacks:
  assumes "lacks results ''webPages'' \<or>
     (\<exists>kvs w_v. results = JObj kvs \<and> map_of kvs ''webPages'' = Some w_v \<and> lacks w_v ''value'')"
    and "print_at rt (No_web_pages i) = None"
  shows "simplify rt i q results = Inr \<lparr>organic_results = Some [], error = None\<rparr>"
  by (simp add: simplify_def has_web_pages_lacks [OF assms(1)] assms(2))

lemma simplify_items_objects:
  "simplify_items q (map JObj items) acc =
     Inr (acc @ map (\<lambda>kv. \<lparr>query = Some (JStr q),
                           title = Some (get_or (map_of kv ''name'') (JStr ''No Title'')),
                           link = Some (get_or (map_of kv ''url'') (JStr ''#'')),
                           sitelinks = Some []\<rparr>) items)"
  by (induction items arbitrary: acc) (simp_all add: get_or_def)


lemma simplify_web_pages:
  assumes "map_of kvs ''webPages'' = Some (JObj wp)"
    and "map_of wp ''value'' = Some (JArr (map JObj items))"
  shows "simplify rt i q (JObj kvs) =
     Inr \<lparr>organic_results = Some (map (\<lambda>kv. \<lparr>query = Some (JStr q),
                           title = Some (get_or (map_of kv ''name'') (JStr ''No Title'')),
                           link = Some (get_or (map_of kv ''url'') (JStr ''#'')),
                           sitelinks = Some []\<rparr>) items), error = None\<rparr>"
  using assms
  by (simp add: simplify_def has_web_pages_def py_contains_obj simplify_items_objects
      del: py_contains.simps)

lemma simplify_empty_value:
  assumes "map_of kvs ''webPages'' = Some (JObj wp)"
    and "map_of wp ''value'' = Some (JObj []) \<or> map_of wp ''value'' = Some (JStr [])"
  shows "simplify rt i q (JObj kvs) = Inr \<lparr>organic_results = Some [], error = None\<rparr>"
  using assms
  by (auto simp: simplify_def has_web_pages_def py_contains_obj simp del: py_contains.simps)


lemma bing_search_success:
  assumes "http_get rt i (build_request (self w) q loc) = Inr resp"
    and "status_code resp < 400 \<or> 600 \<le> status_code resp"
    and "json_body resp = Inr results"
  shows "fst (bing_search rt i q loc w) =
     (case simplify rt i q results of Inl ex \<Rightarrow> except_clauses ex | Inr res \<Rightarrow> Inr res)"
proof -
  have "raise_for_status resp = Inr ()"
    using assms(2) by (auto simp: raise_for_status_def)
  then have "try_block rt i q (http_get rt i (build_request (self w) q loc)) =
      simplify rt i q results"
    by (simp add: try_block_def assms(1,3))
  then show ?thesis
    by (simp add: bing_search_def Let_def split: sum.splits)
qed


lemma join_Cons: "xs \<noteq> [] \<Longrightarrow> join sep (x # xs) = x @ sep @ join sep xs"
  by (cases xs) simp_all

lemma join_append:
  "xs \<noteq> [] \<Longrightarrow> ys \<noteq> [] \<Longrightarrow> join sep (xs @ ys) = join sep xs @ sep @ join sep ys"
proof (induction xs)
  case Nil
  then show ?case by simp
next
  case (Cons x xs)
  show ?case
  proof (cases "xs = []")
    case True
    with Cons.prems show ?thesis by (simp add: join_Cons)
  next
    case False
    with Cons show ?thesis by (simp add: join_Cons)
  qed
qed

lemma join_concat:
  "(\<And>xs. xs \<in> set xss \<Longrightarrow> xs \<noteq> []) \<Longrightarrow>
     join sep (map (join sep) xss) = join sep (concat xss)"
proof (induction xss)
  case Nil
  then show ?case by simp
next
  case (Cons xs xss)
  have xs: "xs \<noteq> []"
    using Cons.prems by simp
  have ih: "join sep (map (join sep) xss) = join sep (concat xss)"
    using Cons by simp
  show ?case
  proof (cases "xss = []")
    case True
    then show ?thesis by simp
  next
    case False
    then obtain ys yss where yss: "xss = ys # yss"
      by (cases xss) auto
    have "ys \<noteq> []"
      using Cons.prems yss by simp
    then have ne: "concat xss \<noteq> []"
      by (simp add: yss)
    have "join sep (map (join sep) (xs # xss)) = join sep xs @ sep @ join sep (map (join sep) xss)"
      using False by (simp add: join_Cons)
    also have "\<dots> = join sep (xs @ concat xss)"
      by (simp only: ih join_append [OF xs ne])
    finally show ?thesis by simp
  qed
qed

lemma spec_block_lines_ne: "spec_block_lines rt h \<noteq> []"
  by (simp add: spec_block_lines_def)

lemma result_block_lines: "result_block rt h = join nl (spec_block_lines rt h)"
proof (cases "get_or (sitelinks h) [] = []")
  case True
  then show ?thesis
    by (simp add: result_block_def spec_block_lines_def Let_def)
next
  case False
  then have m: "map (sitelink_string rt) (get_or (sitelinks h) []) \<noteq> []"
    by simp
  have s: "sitelink_string rt = (\<lambda>sl. ''    - '' @ fstr rt (get_or (sl_title sl) (JStr ''No Title'')) @ '': '' @
                   fstr rt (get_or (sl_link sl) (JStr ''No Link'')))"
    by (rule ext) (simp add: sitelink_string_def Let_def)
  have j: "join nl (map (sitelink_string rt) (get_or (sitelinks h) []) @ [replicate 40 CHR ''-'']) =
      join nl (map (sitelink_string rt) (get_or (sitelinks h) [])) @ nl @ replicate 40 CHR ''-''"
    using join_append [OF m, of "[replicate 40 CHR ''-'']" nl] by simp
  have lines: "spec_block_lines rt h =
      [''Query: '' @ fstr rt (get_or (query h) (JStr ''No Query'')),
       ''Title: '' @ fstr rt (get_or (title h) (JStr ''No Title'')),
       ''Link: '' @ fstr rt (get_or (link h) (JStr ''No Link''))] @
      (''Sitelinks:'' # map (sitelink_string rt) (get_or (sitelinks h) [])) @
      [replicate 40 CHR ''-'']"
    using False by (simp only: spec_block_lines_def s if_False)
  have "join nl (spec_block_lines rt h) =
      ''Query: '' @ fstr rt (get_or (query h) (JStr ''No Query'')) @ nl @
      ''Title: '' @ fstr rt (get_or (title h) (JStr ''No Title'')) @ nl @
      ''Link: '' @ fstr rt (get_or (link h) (JStr ''No Link'')) @ nl @
      ''Sitelinks:'' @ nl @
      join nl (map (sitelink_string rt) (get_or (sitelinks h) []) @ [replicate 40 CHR ''-''])"
    using m by (simp add: lines join_Cons)
  also have "\<dots> = result_block rt h"
    using False by (simp only: j) (simp add: result_block_def Let_def)
  finally show ?thesis by simp
qed

lemma str_nat_401: "str_nat 401 = ''401''"
  by code_simp



text \<open>
  The three cases of \<open>simplify_web_pages\<close>, \<open>simplify_lacks\<close> and
  \<open>simplify_empty_value\<close> are all the bodies for which \<open>bing_search\<close> returns a
  hit list: for a successful response with a body of any other shape, it returns an
  error.
\<close>

lemma py_contains_False_lacks: "py_contains v k = Inr False \<Longrightarrow> lacks v k"
  by (cases v) (simp_all add: map_of_eq_None_iff)

lemma has_web_pages_False_shape:
  assumes "has_web_pages results = Inr False"
  shows "lacks results ''webPages'' \<or>
     (\<exists>kvs w_v. results = JObj kvs \<and> map_of kvs ''webPages'' = Some w_v \<and> lacks w_v ''value'')"
proof (cases "py_contains results ''webPages''")
  case (Inl ex)
  with assms show ?thesis by (simp add: has_web_pages_def)
next
  case (Inr b)
  show ?thesis
  proof (cases b)
    case False
    with Inr have "py_contains results ''webPages'' = Inr False"
      by simp
    then have "lacks results ''webPages''"
      by (rule py_contains_False_lacks)
    then show ?thesis by (rule disjI1)
  next
    case True
    from assms Inr True obtain w_v where gw: "py_getitem results ''webPages'' = Inr w_v"
      and c: "py_contains w_v ''value'' = Inr False"
      by (auto simp: has_web_pages_def split: sum.splits)
    from gw obtain kvs where r: "results = JObj kvs" and m: "map_of kvs ''webPages'' = Some w_v"
      by (cases results) (auto split: option.splits)
    from c have "lacks w_v ''value''"
      by (rule py_contains_False_lacks)
    with r m have "\<exists>kvs w_v. results = JObj kvs \<and> map_of kvs ''webPages'' = Some w_v \<and>
        lacks w_v ''value''"
      by simp
    then show ?thesis by (rule disjI2)
  qed
qed

lemma simplify_items_Inr_objects:
  "simplify_items q items acc = Inr hs \<Longrightarrow> \<exists>objs. items = map JObj objs"
proof (induction items arbitrary: acc)
  case Nil
  then show ?case by simp
next
  case (Cons item items)
  from Cons.prems obtain kv where item: "item = JObj kv"
    by (cases item) simp_all
  from Cons.prems item obtain acc' where "simplify_items q items acc' = Inr hs"
    by simp
  then obtain objs where "items = map JObj objs"
    using Cons.IH by blast
  with item have "item # items = map JObj (kv # objs)"
    by simp
  then show ?case by (rule exI)
qed

lemma simplify_Inr_shape:
  assumes ok: "simplify rt i q results = Inr r"
  shows "(\<exists>kvs wp items. results = JObj kvs \<and> map_of kvs ''webPages'' = Some (JObj wp) \<and>
            map_of wp ''value'' = Some (JArr (map JObj items))) \<or>
         ((lacks results ''webPages'' \<or>
           (\<exists>kvs w_v. results = JObj kvs \<and> map_of kvs ''webPages'' = Some w_v \<and>
              lacks w_v ''value'')) \<and>
          print_at rt (No_web_pages i) = None) \<or>
         (\<exists>kvs wp. results = JObj kvs \<and> map_of kvs ''webPages'' = Some (JObj wp) \<and>
              (map_of wp ''value'' = Some (JObj []) \<or> map_of wp ''value'' = Some (JStr [])))"
proof (cases "has_web_pages results")
  case (Inl ex)
  with ok show ?thesis by (simp add: simplify_def)
next
  case (Inr b)
  show ?thesis
  proof (cases b)
    case False
    with Inr ok have "print_at rt (No_web_pages i) = None"
      by (simp add: simplify_def split: option.splits)
    moreover from Inr False have "lacks results ''webPages'' \<or>
        (\<exists>kvs w_v. results = JObj kvs \<and> map_of kvs ''webPages'' = Some w_v \<and>
           lacks w_v ''value'')"
      using has_web_pages_False_shape [of results] by simp
    ultimately show ?thesis by simp
  next
    case True
    from ok Inr True obtain w_v where gw: "py_getitem results ''webPages'' = Inr w_v"
      by (auto simp: simplify_def split: sum.splits)
    from ok Inr True gw obtain v where gv: "py_getitem w_v ''value'' = Inr v"
      by (auto simp: simplify_def split: sum.splits)
    from ok Inr True gw gv obtain items where it: "py_iter v = Inr items"
      by (auto simp: simplify_def split: sum.splits)
    from ok Inr True gw gv it obtain hs where hs: "simplify_items q items [] = Inr hs"
      by (auto simp: simplify_def split: sum.splits)
    from gw obtain kvs where res: "results = JObj kvs" and mw: "map_of kvs ''webPages'' = Some w_v"
      by (cases results) (auto split: option.splits)
    from gv obtain wp where wv: "w_v = JObj wp" and mv: "map_of wp ''value'' = Some v"
      by (cases w_v) (auto split: option.splits)
    from hs obtain objs where objs: "items = map JObj objs"
      using simplify_items_Inr_objects by blast
    have "v = JArr (map JObj objs) \<or> v = JObj [] \<or> v = JStr []"
    proof (cases v)
      case (JArr xs)
      with it objs show ?thesis by simp
    next
      case (JObj okvs)
      with it objs have "map JStr (remdups (map fst okvs)) = map JObj objs"
        by simp
      then have "remdups (map fst okvs) = []"
        by (cases "remdups (map fst okvs)"; cases objs) simp_all
      then have "okvs = []"
        by simp
      with JObj show ?thesis by simp
    next
      case (JStr s)
      with it objs have "map (\<lambda>c. JStr [c]) s = map JObj objs"
        by simp
      then have "s = []"
        by (cases s; cases objs) simp_all
      with JStr show ?thesis by simp
    qed (use it in simp_all)
    with res mw wv mv show ?thesis by auto
  qed
qed

lemma bing_search_other_shapes:
  assumes "http_get rt i (build_request (self w) q loc) = Inr resp"
    and "status_code resp < 400 \<or> 600 \<le> status_code resp"
    and "json_body resp = Inr results"
    and "\<not> (\<exists>kvs wp items. results = JObj kvs \<and> map_of kvs ''webPages'' = Some (JObj wp) \<and>
            map_of wp ''value'' = Some (JArr (map JObj items)))"
    and "\<not> ((lacks results ''webPages'' \<or>
           (\<exists>kvs w_v. results = JObj kvs \<and> map_of kvs ''webPages'' = Some w_v \<and>
              lacks w_v ''value'')) \<and>
          print_at rt (No_web_pages i) = None)"
    and "\<not> (\<exists>kvs wp. results = JObj kvs \<and> map_of kvs ''webPages'' = Some (JObj wp) \<and>
              (map_of wp ''value'' = Some (JObj []) \<or> map_of wp ''value'' = Some (JStr [])))"
  shows "\<exists>msg. fst (bing_search rt i q loc w) = Inr \<lparr>organic_results = None, error = Some msg\<rparr>"
proof (cases "simplify rt i q results")
  case (Inl ex)
  then show ?thesis
    using except_clauses_error [of ex] by (simp add: bing_search_success [OF assms(1,2,3)])
next
  case (Inr r)
  from simplify_Inr_shape [OF Inr] assms(4,5,6) show ?thesis
    by argo
qed

section \<open>The claims\<close>

text \<open>
  C1. A query whose fetch fails should appear in the report as the line
  \<^verbatim>\<open>Error for query '<query>': <message>\<close>. It does not: \<open>bing_search\<close> turns
  the failure into a dictionary with the key \<^verbatim>\<open>'error'\<close>, and
  \<open>format_search_results\<close> reads only \<^verbatim>\<open>'organic_results'\<close>, so the entry of the
  failed query is the empty string. Here the first of two queries gets a 401 reply:
  the report is an empty entry, a newline, and the block of the second query.
\<close>

theorem execute_tool_http_401_report:
  "fst (bing_search (stub_runtime [unauthorized, ok_response one_hit_body] []) 0 ''q0'' ''us''
          example_world) =
     Inr \<lparr>organic_results = None,
          error = Some (''HTTP error occurred: 401 Client Error: Unauthorized for url: '' @
                        example_url)\<rparr> \<and>
   fst (execute_tool (stub_runtime [unauthorized, ok_response one_hit_body] [])
          \<lparr>tr_queries = Some [''q0'', ''q1''], tr_location = Some ''us''\<rparr> example_world) =
     Inr (nl @ ''Query: q1'' @ nl @ ''Title: A'' @ nl @ ''Link: http://a'' @ nl @
          ''Sitelinks: None'' @ nl @ replicate 40 CHR ''-'') \<and>
   \<not> str_contains ''Error for query''
       (nl @ ''Query: q1'' @ nl @ ''Title: A'' @ nl @ ''Link: http://a'' @ nl @
        ''Sitelinks: None'' @ nl @ replicate 40 CHR ''-'')"
proof (intro conjI)
  show "fst (bing_search (stub_runtime [unauthorized, ok_response one_hit_body] []) 0 ''q0'' ''us''
          example_world) =
     Inr \<lparr>organic_results = None,
          error = Some (''HTTP error occurred: 401 Client Error: Unauthorized for url: '' @
                        example_url)\<rparr>"
    by (simp add: example_defs eval_defs str_nat_401 del: str_nat.simps)
next
  show "fst (execute_tool (stub_runtime [unauthorized, ok_response one_hit_body] [])
          \<lparr>tr_queries = Some [''q0'', ''q1''], tr_location = Some ''us''\<rparr> example_world) =
     Inr (nl @ ''Query: q1'' @ nl @ ''Title: A'' @ nl @ ''Link: http://a'' @ nl @
          ''Sitelinks: None'' @ nl @ replicate 40 CHR ''-'')"
    by (simp add: example_defs eval_defs str_nat_401 del: str_nat.simps)
next
  show "\<not> str_contains ''Error for query''
       (nl @ ''Query: q1'' @ nl @ ''Title: A'' @ nl @ ''Link: http://a'' @ nl @
        ''Sitelinks: None'' @ nl @ replicate 40 CHR ''-'')"
    by code_simp
qed







text \<open>
  C4, as the code has it. Take a response whose status is not an error status and
  whose body decodes to JSON.
  \<^item> If the body is an object whose \<^verbatim>\<open>webPages\<close> is an object whose \<^verbatim>\<open>value\<close> is
    an array of objects, \<open>bing_search\<close> returns one hit per item, in order: the
    title is the item's \<^verbatim>\<open>name\<close>, or \<^verbatim>\<open>"No Title"\<close> when the item has none, the
    link is its \<^verbatim>\<open>url\<close>, or \<^verbatim>\<open>"#"\<close>, and the sitelinks are empty.
  \<^item> If the body does not contain \<^verbatim>\<open>webPages\<close>, or it is an object whose
    \<^verbatim>\<open>webPages\<close> does not contain \<^verbatim>\<open>value\<close> (\<open>lacks\<close>: an object without the
    key, an array without that string among its elements, a string in which it does
    not occur), and the \<^verbatim>\<open>print\<close> of line 99 returns, \<open>bing_search\<close> returns the
    empty hit list.
  \<^item> If \<^verbatim>\<open>webPages.value\<close> is an empty object or an empty string, \<open>bing_search\<close>
    returns the empty hit list.
\<close>

theorem bing_search_maps_items:
  assumes "http_get rt i (build_request (self w) q loc) = Inr resp"
    and "status_code resp < 400 \<or> 600 \<le> status_code resp"
    and "json_body resp = Inr results"
  shows "(\<forall>kvs wp items.
            results = JObj kvs \<and> map_of kvs ''webPages'' = Some (JObj wp) \<and>
            map_of wp ''value'' = Some (JArr (map JObj items)) \<longrightarrow>
              fst (bing_search rt i q loc w) =
                Inr \<lparr>organic_results =
                       Some (map (\<lambda>item. \<lparr>query = Some (JStr q),
                                title = Some (get_or (map_of item ''name'') (JStr ''No Title'')),
                                link = Some (get_or (map_of item ''url'') (JStr ''#'')),
                                sitelinks = Some []\<rparr>) items),
                     error = None\<rparr>) \<and>
         ((lacks results ''webPages'' \<or>
           (\<exists>kvs w_v. results = JObj kvs \<and> map_of kvs ''webPages'' = Some w_v \<and>
              lacks w_v ''value'')) \<and>
          print_at rt (No_web_pages i) = None \<longrightarrow>
            fst (bing_search rt i q loc w) = Inr \<lparr>organic_results = Some [], error = None\<rparr>) \<and>
         ((\<exists>kvs wp. results = JObj kvs \<and> map_of kvs ''webPages'' = Some (JObj wp) \<and>
              (map_of wp ''value'' = Some (JObj []) \<or> map_of wp ''value'' = Some (JStr []))) \<longrightarrow>
            fst (bing_search rt i q loc w) = Inr \<lparr>organic_results = Some [], error = None\<rparr>)"
proof (intro conjI allI impI)
  fix kvs wp items
  assume "results = JObj kvs \<and> map_of kvs ''webPages'' = Some (JObj wp) \<and>
      map_of wp ''value'' = Some (JArr (map JObj items))"
  then show "fst (bing_search rt i q loc w) =
      Inr \<lparr>organic_results =
             Some (map (\<lambda>item. \<lparr>query = Some (JStr q),
                      title = Some (get_or (map_of item ''name'') (JStr ''No Title'')),
                      link = Some (get_or (map_of item ''url'') (JStr ''#'')),
                      sitelinks = Some []\<rparr>) items),
           error = None\<rparr>"
    by (simp add: bing_search_success [OF assms] simplify_web_pages)
next
  assume a: "(lacks results ''webPages'' \<or>
       (\<exists>kvs w_v. results = JObj kvs \<and> map_of kvs ''webPages'' = Some w_v \<and>
          lacks w_v ''value'')) \<and>
      print_at rt (No_web_pages i) = None"
  then have "simplify rt i q results = Inr \<lparr>organic_results = Some [], error = None\<rparr>"
    using simplify_lacks [of results rt i q] by blast
  then show "fst (bing_search rt i q loc w) = Inr \<lparr>organic_results = Some [], error = None\<rparr>"
    by (simp add: bing_search_success [OF assms])
next
  assume "\<exists>kvs wp. results = JObj kvs \<and> map_of kvs ''webPages'' = Some (JObj wp) \<and>
      (map_of wp ''value'' = Some (JObj []) \<or> map_of wp ''value'' = Some (JStr []))"
  then obtain kvs wp where r: "results = JObj kvs"
    and w: "map_of kvs ''webPages'' = Some (JObj wp)"
    and v: "map_of wp ''value'' = Some (JObj []) \<or> map_of wp ''value'' = Some (JStr [])"
    by blast
  have "simplify rt i q results = Inr \<lparr>organic_results = Some [], error = None\<rparr>"
    unfolding r by (rule simplify_empty_value [OF w v])
  then show "fst (bing_search rt i q loc w) = Inr \<lparr>organic_results = Some [], error = None\<rparr>"
    by (simp add: bing_search_success [OF assms])
qed

theorem bing_search_maps_items_witness:
  "fst (bing_search (stub_runtime [ok_response two_hit_body, ok_response (JArr [JStr ''x'']),
            ok_response empty_value_body] []) 0 ''q0'' ''us'' example_world) =
     Inr \<lparr>organic_results =
            Some [\<lparr>query = Some (JStr ''q0''), title = Some (JStr ''A''),
                   link = Some (JStr ''http://a''), sitelinks = Some []\<rparr>,
                  \<lparr>query = Some (JStr ''q0''), title = Some (JStr ''B''),
                   link = Some (JStr ''#''), sitelinks = Some []\<rparr>],
          error = None\<rparr> \<and>
   fst (bing_search (stub_runtime [ok_response two_hit_body, ok_response (JArr [JStr ''x'']),
            ok_response empty_value_body] []) 1 ''q1'' ''us'' example_world) =
     Inr \<lparr>organic_results = Some [], error = None\<rparr> \<and>
   fst (bing_search (stub_runtime [ok_response two_hit_body, ok_response (JArr [JStr ''x'']),
            ok_response empty_value_body] []) 2 ''q2'' ''us'' example_world) =
     Inr \<lparr>organic_results = Some [], error = None\<rparr>"
proof -
  let ?rt = "stub_runtime [ok_response two_hit_body, ok_response (JArr [JStr ''x'']),
      ok_response empty_value_body] []"
  let ?r0 = "\<lparr>status_code = 200, reason = ''OK'', url = example_url, json_body = Inr two_hit_body\<rparr>"
  let ?r1 = "\<lparr>status_code = 200, reason = ''OK'', url = example_url,
      json_body = Inr (JArr [JStr ''x''])\<rparr>"
  let ?r2 = "\<lparr>status_code = 200, reason = ''OK'', url = example_url,
      json_body = Inr empty_value_body\<rparr>"
  let ?wp = "[(''value'', JArr [JObj [(''name'', JStr ''A''), (''url'', JStr ''http://a'')],
                                JObj [(''name'', JStr ''B'')]])]"
  let ?items = "[[(''name'', JStr ''A''), (''url'', JStr ''http://a'')], [(''name'', JStr ''B'')]]"
  have g0: "http_get ?rt 0 (build_request (self example_world) ''q0'' ''us'') = Inr ?r0"
    by (simp add: stub_runtime_def ok_response_def)
  have g1: "http_get ?rt 1 (build_request (self example_world) ''q1'' ''us'') = Inr ?r1"
    by (simp add: stub_runtime_def ok_response_def)
  have g2: "http_get ?rt 2 (build_request (self example_world) ''q2'' ''us'') = Inr ?r2"
    by (simp add: stub_runtime_def ok_response_def)
  have s0: "status_code ?r0 < 400 \<or> 600 \<le> status_code ?r0"
    and s1: "status_code ?r1 < 400 \<or> 600 \<le> status_code ?r1"
    and s2: "status_code ?r2 < 400 \<or> 600 \<le> status_code ?r2"
    by simp_all
  have b0: "json_body ?r0 = Inr two_hit_body"
    and b1: "json_body ?r1 = Inr (JArr [JStr ''x''])"
    and b2: "json_body ?r2 = Inr empty_value_body"
    by simp_all
  have shape0: "two_hit_body = JObj [(''webPages'', JObj ?wp)] \<and>
      map_of [(''webPages'', JObj ?wp)] ''webPages'' = Some (JObj ?wp) \<and>
      map_of ?wp ''value'' = Some (JArr (map JObj ?items))"
    by (simp add: two_hit_body_def)
  have shape1: "(lacks (JArr [JStr ''x'']) ''webPages'' \<or>
       (\<exists>kvs w_v. JArr [JStr ''x''] = JObj kvs \<and> map_of kvs ''webPages'' = Some w_v \<and>
          lacks w_v ''value'')) \<and>
      print_at ?rt (No_web_pages 1) = None"
    by (simp add: stub_runtime_def)
  have shape2: "\<exists>kvs wp. empty_value_body = JObj kvs \<and>
      map_of kvs ''webPages'' = Some (JObj wp) \<and>
      (map_of wp ''value'' = Some (JObj []) \<or> map_of wp ''value'' = Some (JStr []))"
    by (simp add: empty_value_body_def)
  have a: "fst (bing_search ?rt 0 ''q0'' ''us'' example_world) =
      Inr \<lparr>organic_results =
             Some (map (\<lambda>item. \<lparr>query = Some (JStr ''q0''),
                      title = Some (get_or (map_of item ''name'') (JStr ''No Title'')),
                      link = Some (get_or (map_of item ''url'') (JStr ''#'')),
                      sitelinks = Some []\<rparr>) ?items),
           error = None\<rparr>"
    using bing_search_maps_items [OF g0 s0 b0] shape0 by blast
  have b: "fst (bing_search ?rt 1 ''q1'' ''us'' example_world) =
      Inr \<lparr>organic_results = Some [], error = None\<rparr>"
    using bing_search_maps_items [OF g1 s1 b1] shape1 by blast
  have c: "fst (bing_search ?rt 2 ''q2'' ''us'' example_world) =
      Inr \<lparr>organic_results = Some [], error = None\<rparr>"
    using bing_search_maps_items [OF g2 s2 b2] shape2 by blast
  from a b c show ?thesis
    by (simp add: get_or_def)
qed

text \<open>
  C4 as stated covers every successful JSON response. The body
  \<^verbatim>\<open>{"webPages": {"value": null}}\<close> arrives with status 200 and has no array under
  \<^verbatim>\<open>webPages.value\<close>; the loop over \<^verbatim>\<open>None\<close> raises a \<^verbatim>\<open>TypeError\<close>, the last
  \<^verbatim>\<open>except\<close> clause takes it, and the result is an error, not an empty hit list.
  And for the body \<^verbatim>\<open>{}\<close>, when the \<^verbatim>\<open>print\<close> of line 99 raises, the result is an
  error as well.
\<close>

theorem bing_search_null_value_counterexample:
  "status_code \<lparr>status_code = 200, reason = ''OK'', url = example_url,
                json_body = Inr null_value_body\<rparr> = 200 \<and>
   null_value_body = JObj [(''webPages'', JObj [(''value'', JNull)])] \<and>
   fst (bing_search (stub_runtime [ok_response null_value_body] []) 0 ''q'' ''us'' example_world) =
     Inr \<lparr>organic_results = None,
          error = Some (quoted ''NoneType'' @ '' object is not iterable'')\<rparr> \<and>
   fst (bing_search (stub_runtime [ok_response null_value_body] []) 0 ''q'' ''us'' example_world) \<noteq>
     Inr \<lparr>organic_results = Some [], error = None\<rparr> \<and>
   fst (bing_search (failing_print (No_web_pages 0) (stub_runtime [ok_response (JObj [])] []))
          0 ''q'' ''us'' example_world) =
     Inr \<lparr>organic_results = None, error = Some ''I/O operation on closed file.''\<rparr>"
  by (simp add: null_value_body_def example_defs eval_defs)

text \<open>
  C5, as the code has it. \<open>format_search_results\<close> renders one block per hit, in
  the order of the list, joined with newlines. The lines of a block are Query,
  Title and Link, then \<^verbatim>\<open>Sitelinks: None\<close> when the hit has no sitelinks, or the
  line \<^verbatim>\<open>Sitelinks:\<close> followed by one indented line \<^verbatim>\<open>    - <title>: <link>\<close> per
  sitelink, then a line of forty dashes; the whole rendering is these lines, block
  after block, joined with newlines.
\<close>

theorem format_search_results_blocks:
  "format_search_results rt \<lparr>organic_results = Some hits, error = e\<rparr> =
     join nl (map (\<lambda>h. join nl (spec_block_lines rt h)) hits) \<and>
   format_search_results rt \<lparr>organic_results = Some hits, error = e\<rparr> =
     join nl (concat (map (spec_block_lines rt) hits))"
proof -
  have a: "format_search_results rt \<lparr>organic_results = Some hits, error = e\<rparr> =
      join nl (map (\<lambda>h. join nl (spec_block_lines rt h)) hits)"
    by (simp add: format_search_results_def get_or_def result_block_lines [abs_def])
  have "join nl (map (join nl) (map (spec_block_lines rt) hits)) =
      join nl (concat (map (spec_block_lines rt) hits))"
    by (rule join_concat) (auto simp: spec_block_lines_ne)
  then have b: "join nl (map (\<lambda>h. join nl (spec_block_lines rt h)) hits) =
      join nl (concat (map (spec_block_lines rt) hits))"
    by (simp add: comp_def)
  from a b show ?thesis by simp
qed

text \<open>
  C5 as stated gives, for a hit with sitelinks, only the indented lines between the
  Link line and the dashes. For a hit with one sitelink the code puts the line
  \<^verbatim>\<open>Sitelinks:\<close> before the indented line, so its rendering is not the one stated.
\<close>

theorem format_search_results_sitelinks_counterexample:
  "format_search_results (stub_runtime [] [])
       \<lparr>organic_results = Some [sitelink_hit], error = None\<rparr> =
     ''Query: q'' @ nl @ ''Title: t'' @ nl @ ''Link: l'' @ nl @ ''Sitelinks:'' @ nl @
     ''    - a: b'' @ nl @ replicate 40 CHR ''-'' \<and>
   format_search_results (stub_runtime [] [])
       \<lparr>organic_results = Some [sitelink_hit], error = None\<rparr> \<noteq>
     ''Query: q'' @ nl @ ''Title: t'' @ nl @ ''Link: l'' @ nl @
     ''    - a: b'' @ nl @ replicate 40 CHR ''-''"
  by (simp add: sitelink_hit_def eval_defs)

text \<open>
  C6. The schema of \<open>get_guided_json\<close> is the same value for every agent and every
  state argument. It is an object schema whose properties are exactly
  \<^verbatim>\<open>queries\<close>, an array of strings, and \<^verbatim>\<open>location\<close>, a string; both are
  required and additional properties are not allowed.
\<close>

theorem get_guided_json_schema:
  "get_guided_json slf state = get_guided_json slf' state' \<and>
   py_getitem (get_guided_json slf state) ''type'' = Inr (JStr ''object'') \<and>
   (\<exists>props queries_schema items_schema location_schema.
      py_getitem (get_guided_json slf state) ''properties'' = Inr props \<and>
      py_iter props = Inr [JStr ''queries'', JStr ''location''] \<and>
      py_getitem props ''queries'' = Inr queries_schema \<and>
      py_getitem queries_schema ''type'' = Inr (JStr ''array'') \<and>
      py_getitem queries_schema ''items'' = Inr items_schema \<and>
      py_getitem items_schema ''type'' = Inr (JStr ''string'') \<and>
      py_getitem props ''location'' = Inr location_schema \<and>
      py_getitem location_schema ''type'' = Inr (JStr ''string'')) \<and>
   py_getitem (get_guided_json slf state) ''required'' = Inr (JArr [JStr ''queries'', JStr ''location'']) \<and>
   py_getitem (get_guided_json slf state) ''additionalProperties'' = Inr (JBool False)"
  by (simp add: get_guided_json_def)

text \<open>
  C7. \<^verbatim>\<open>__init__\<close> sets the agent's location to \<^verbatim>\<open>"us"\<close>. In every request a
  call with a non-empty list of queries sends, \<^verbatim>\<open>mkt\<close> is the location of the
  request when it has one and the agent's location when it has none; and unless
  the \<^verbatim>\<open>print\<close> of line 161 raises, the call sends one request per query, with
  \<^verbatim>\<open>q\<close> the query.
\<close>

theorem execute_tool_location:
  assumes "tr_queries tr = Some qs" and "qs \<noteq> []"
  shows "location (init name_arg api_key_arg endpoint_arg) = ''us'' \<and>
    (\<exists>reqs. calls (snd (execute_tool rt tr w)) = calls w @ reqs \<and>
       (\<forall>j < length reqs.
          map_of (req_params (reqs ! j)) ''mkt'' =
            Some (JStr (case tr_location tr of None \<Rightarrow> location (self w) | Some l \<Rightarrow> l))) \<and>
       (print_at rt Searching = None \<longrightarrow>
          length reqs = length qs \<and>
          (\<forall>j < length qs.
             map_of (req_params (reqs ! j)) ''q'' = Some (JStr (qs ! j)) \<and>
             map_of (req_params (reqs ! j)) ''mkt'' =
               Some (JStr (case tr_location tr of None \<Rightarrow> location (self w) | Some l \<Rightarrow> l)))))"
proof -
  define loc where "loc = get_or (tr_location tr) (location (self w))"
  have loc': "(case tr_location tr of None \<Rightarrow> location (self w) | Some l \<Rightarrow> l) = loc"
    by (simp add: loc_def get_or_def)
  have i: "location (init name_arg api_key_arg endpoint_arg) = ''us''"
    by (simp add: init_def)
  have ex: "\<exists>reqs. calls (snd (execute_tool rt tr w)) = calls w @ reqs \<and>
       (\<forall>j < length reqs. map_of (req_params (reqs ! j)) ''mkt'' = Some (JStr loc)) \<and>
       (print_at rt Searching = None \<longrightarrow>
          length reqs = length qs \<and>
          (\<forall>j < length qs.
             map_of (req_params (reqs ! j)) ''q'' = Some (JStr (qs ! j)) \<and>
             map_of (req_params (reqs ! j)) ''mkt'' = Some (JStr loc)))"
  proof (cases "print_at rt Searching")
    case None
    define reqs where "reqs = map (\<lambda>q. build_request (self w) q loc) qs"
    have c: "calls (snd (execute_tool rt tr w)) = calls w @ reqs"
      by (simp add: execute_tool_nonempty [OF assms] None reqs_def loc_def)
    have l: "length reqs = length qs"
      by (simp add: reqs_def)
    have p: "\<forall>j < length qs.
        map_of (req_params (reqs ! j)) ''q'' = Some (JStr (qs ! j)) \<and>
        map_of (req_params (reqs ! j)) ''mkt'' = Some (JStr loc)"
      by (simp add: reqs_def build_request_def)
    from p l have m: "\<forall>j < length reqs. map_of (req_params (reqs ! j)) ''mkt'' = Some (JStr loc)"
      by simp
    show ?thesis
      by (rule exI [of _ reqs]) (simp add: c l p m)
  next
    case (Some exc)
    have c: "calls (snd (execute_tool rt tr w)) = calls w @ []"
      by (simp add: execute_tool_nonempty [OF assms] Some)
    show ?thesis
      by (rule exI [of _ "[]"]) (simp add: c Some)
  qed
  show ?thesis
    unfolding loc' using i ex by (rule conjI)
qed

theorem execute_tool_location_witness:
  "tr_queries \<lparr>tr_queries = Some [''q0'', ''q1''], tr_location = None\<rparr> = Some [''q0'', ''q1''] \<and>
   [''q0'', ''q1''] \<noteq> [] \<and>
   print_at (stub_runtime [unauthorized, ok_response one_hit_body] [1]) Searching = None \<and>
   (\<exists>reqs. calls (snd (execute_tool (stub_runtime [unauthorized, ok_response one_hit_body] [1])
                \<lparr>tr_queries = Some [''q0'', ''q1''], tr_location = None\<rparr> example_world)) = reqs \<and>
       length reqs = 2 \<and>
       map_of (req_params (reqs ! 0)) ''mkt'' = Some (JStr ''us'') \<and>
       map_of (req_params (reqs ! 1)) ''mkt'' = Some (JStr ''us''))"
proof -
  let ?rt = "stub_runtime [unauthorized, ok_response one_hit_body] [1]"
  let ?tr = "\<lparr>tr_queries = Some [''q0'', ''q1''], tr_location = None\<rparr>"
  have h1: "tr_queries ?tr = Some [''q0'', ''q1'']"
    by simp
  have h2: "[''q0'', ''q1''] \<noteq> []"
    by simp
  have h3: "print_at ?rt Searching = None"
    by (simp add: stub_runtime_def)
  have w: "location (self example_world) = ''us''" "calls example_world = []"
    by (simp_all add: example_world_def init_def)
  obtain reqs where r: "calls (snd (execute_tool ?rt ?tr example_world)) = calls example_world @ reqs"
      "print_at ?rt Searching = None \<longrightarrow>
        length reqs = length [''q0'', ''q1''] \<and>
        (\<forall>j < length [''q0'', ''q1''].
          map_of (req_params (reqs ! j)) ''q'' = Some (JStr ([''q0'', ''q1''] ! j)) \<and>
          map_of (req_params (reqs ! j)) ''mkt'' =
            Some (JStr (case tr_location ?tr of
                None \<Rightarrow> location (self example_world) | Some l \<Rightarrow> l)))"
    using execute_tool_location [OF h1 h2, of _ _ _ ?rt example_world] by blast
  from r(2) h3 have l: "length reqs = 2"
    and a: "\<forall>j < length [''q0'', ''q1''].
          map_of (req_params (reqs ! j)) ''q'' = Some (JStr ([''q0'', ''q1''] ! j)) \<and>
          map_of (req_params (reqs ! j)) ''mkt'' =
            Some (JStr (case tr_location ?tr of
                None \<Rightarrow> location (self example_world) | Some l \<Rightarrow> l))"
    by simp_all
  from a have "map_of (req_params (reqs ! 0)) ''mkt'' = Some (JStr ''us'')"
      "map_of (req_params (reqs ! 1)) ''mkt'' = Some (JStr ''us'')"
    by (simp_all add: w)
  with r(1) l h1 h2 h3 show ?thesis
    by (simp add: w)
qed




text \<open>
  C9. \<open>execute_tool\<close> leaves the agent object as it was, and what a later call
  returns is what it would have returned had the earlier call not happened.
\<close>

theorem execute_tool_keeps_agent:
  "self (snd (execute_tool rt tr w)) = self w \<and>
   fst (execute_tool rt' tr' (snd (execute_tool rt tr w))) = fst (execute_tool rt' tr' w)"
proof -
  obtain cs where w': "snd (execute_tool rt tr w) = w\<lparr>calls := cs\<rparr>"
    using snd_execute_tool_frame by blast
  have "self (w\<lparr>calls := cs\<rparr>) = self w"
    by simp
  then show ?thesis
    by (simp only: w' fst_execute_tool_calls simp_thms)
qed

text \<open>
  C10. \<open>bing_search\<close> never raises: it returns a dictionary that has the key
  \<^verbatim>\<open>'organic_results'\<close> with a list of hits and no \<^verbatim>\<open>'error'\<close>, or the key
  \<^verbatim>\<open>'error'\<close> with a message and no \<^verbatim>\<open>'organic_results'\<close>.
\<close>

theorem bing_search_returns_one_key:
  "\<exists>r. fst (bing_search rt i q loc w) = Inr r \<and>
     ((\<exists>hits. organic_results r = Some hits \<and> error r = None) \<or>
      (\<exists>msg. organic_results r = None \<and> error r = Some msg))"
  using fst_bing_search_cases [of rt i q loc w] by auto

end
